theory Spec2Isabelle
  imports Complex_Main
begin

section \<open>Data model\<close>

text \<open>
  The program reads a typeset conference book (PDF), classifies its text spans by font
  name and font size, and writes one spreadsheet row per author.

  A span is the dictionary the PDF library reports for a run of text; the code reads its
  keys \<^verbatim>\<open>font\<close>, \<^verbatim>\<open>size\<close> and \<^verbatim>\<open>text\<close>. The size is a
  floating-point number that the code only ever compares for equality with the five
  constants below; every one of them is a binary fraction, so the comparison is the
  comparison of the rational numbers the floats denote, and the size is modelled as a
  rational.
\<close>

record span =
  span_font :: string
  span_size :: rat
  span_text :: string

text \<open>
  A layout block: the keys \<^verbatim>\<open>type\<close> and \<^verbatim>\<open>lines\<close>; a line is its list of spans.
  The code reads the lines of every block before it looks at the type, so the blocks
  modelled are those that carry both keys.
\<close>

record block =
  block_type :: int
  block_lines :: "span list list"

type_synonym page = "block list"

text \<open>
  The opened document, as far as the code uses it: \<^verbatim>\<open>page_count\<close> and
  \<^verbatim>\<open>load_page\<close>, which may fail to give a page (\<open>None\<close>).
\<close>

record document =
  page_count :: nat
  load_page :: "int \<Rightarrow> page option"

text \<open>The article dictionary built for every block, with the five keys of the source.\<close>

record article =
  authors :: "string list"
  affiliations :: "string list"
  session :: string
  title :: string
  abstract :: string

definition FONT_SIZE_PARAGRAPH :: rat where
  "FONT_SIZE_PARAGRAPH = 19 / 2"

definition FONT_SIZE_TITLE :: rat where
  "FONT_SIZE_TITLE = 9"

definition FONT_SIZE_AUTHORS :: rat where
  "FONT_SIZE_AUTHORS = 9"

definition FONT_SIZE_AFFILIATIONS :: rat where
  "FONT_SIZE_AFFILIATIONS = 8"

text \<open>The float \<^verbatim>\<open>9.134002685546875\<close> is exactly \<open>299303 / 2 ^ 15\<close>.\<close>

definition FONT_SIZE_ABSTRACT :: rat where
  "FONT_SIZE_ABSTRACT = 299303 / 32768"

section \<open>Extractor: span classification\<close>

definition is_paragraph :: "span \<Rightarrow> bool" where
  "is_paragraph sp \<longleftrightarrow>
     span_font sp = ''TimesNewRomanPS-BoldItal'' \<and> span_size sp = FONT_SIZE_PARAGRAPH"

definition is_title :: "span \<Rightarrow> bool" where
  "is_title sp \<longleftrightarrow>
     span_font sp = ''TimesNewRomanPS-BoldMT'' \<and> span_size sp = FONT_SIZE_TITLE"

definition is_authors :: "span \<Rightarrow> bool" where
  "is_authors sp \<longleftrightarrow>
     span_font sp = ''TimesNewRomanPS-ItalicMT'' \<and> span_size sp = FONT_SIZE_AUTHORS"

definition is_affiliations :: "span \<Rightarrow> bool" where
  "is_affiliations sp \<longleftrightarrow>
     span_font sp = ''TimesNewRomanPS-ItalicMT'' \<and> span_size sp = FONT_SIZE_AFFILIATIONS"

definition is_abstract :: "span \<Rightarrow> bool" where
  "is_abstract sp \<longleftrightarrow> span_size sp = FONT_SIZE_ABSTRACT"

text \<open>The body of the loop over spans: the \<^verbatim>\<open>if/elif\<close> chain on the current article.\<close>

definition add_span :: "article \<Rightarrow> span \<Rightarrow> article" where
  "add_span current_article sp =
     (let text_pattern = span_text sp in
      if is_paragraph sp then
        current_article\<lparr>session := session current_article @ text_pattern\<rparr>
      else if is_title sp then
        current_article\<lparr>title := title current_article @ text_pattern\<rparr>
      else if is_authors sp then
        current_article\<lparr>authors := authors current_article @ [text_pattern]\<rparr>
      else if is_affiliations sp then
        current_article\<lparr>affiliations := affiliations current_article @ [text_pattern]\<rparr>
      else if is_abstract sp then
        current_article\<lparr>abstract := abstract current_article @ text_pattern\<rparr>
      else current_article)"

definition empty_article :: article where
  "empty_article = \<lparr>authors = [], affiliations = [], session = [], title = [], abstract = []\<rparr>"

text \<open>The two nested loops over the lines of a block and the spans of a line.\<close>

definition read_block :: "block \<Rightarrow> article" where
  "read_block b = foldl (\<lambda>art line. foldl add_span art line) empty_article (block_lines b)"

section \<open>Extractor: blocks and the one-record lookback\<close>

text \<open>
  Articles are dictionaries that the code mutates through several references: the
  generator keeps \<^verbatim>\<open>previous_article\<close>, the consumer holds what was yielded. So the
  articles live in a store, a record is known by its address, and a sequence of records
  is a list of addresses.
\<close>

type_synonym addr = nat

type_synonym heap = "addr \<Rightarrow> article"

text \<open>
  What \<^verbatim>\<open>+=\<close> on title and abstract and \<^verbatim>\<open>extend\<close> on affiliations do to the
  record \<open>target\<close>, given the record \<open>other\<close> (lines 76 to 78, and again lines 105 to 107).
\<close>

definition extend_article :: "article \<Rightarrow> article \<Rightarrow> article" where
  "extend_article target other =
     target\<lparr>title := title target @ title other,
            affiliations := affiliations target @ affiliations other,
            abstract := abstract target @ abstract other\<rparr>"

text \<open>Truth value of the condition of line 72: some field is a non-empty string or list.\<close>

definition has_content :: "article \<Rightarrow> bool" where
  "has_content a \<longleftrightarrow>
     session a \<noteq> [] \<or> title a \<noteq> [] \<or> authors a \<noteq> [] \<or> affiliations a \<noteq> [] \<or> abstract a \<noteq> []"

text \<open>
  The generator's state between two blocks: the store, the next unused address and the
  variable \<^verbatim>\<open>previous_article\<close> (\<open>None\<close> is Python's \<^verbatim>\<open>None\<close>).
\<close>

record gen_state =
  heap :: heap
  fresh :: addr
  previous_article :: "addr option"

definition init_gen :: gen_state where
  "init_gen = \<lparr>heap = (\<lambda>_. empty_article), fresh = 0, previous_article = None\<rparr>"

text \<open>
  One iteration of the loop over blocks (lines 40 to 82). The first component is the
  address yielded, if the iteration yields. The assignment of line 82 touches only the
  generator's own variable, so it is done here although the consumer runs before it.
\<close>

definition block_step :: "block \<Rightarrow> gen_state \<Rightarrow> addr option \<times> gen_state" where
  "block_step b g =
     (let current_article = fresh g;
          h = (heap g)(current_article := read_block b)
      in if block_type b = 0 \<and> has_content (h current_article) then
           if session (h current_article) = [] then
             (case previous_article g of
                Some p \<Rightarrow>
                  (Some p,
                   \<lparr>heap = h(p := extend_article (h p) (h current_article)),
                    fresh = Suc current_article, previous_article = Some p\<rparr>)
              | None \<Rightarrow>
                  (Some current_article,
                   \<lparr>heap = h, fresh = Suc current_article,
                    previous_article = Some current_article\<rparr>))
           else
             (Some current_article,
              \<lparr>heap = h, fresh = Suc current_article, previous_article = Some current_article\<rparr>)
         else
           (None,
            \<lparr>heap = h, fresh = Suc current_article, previous_article = Some current_article\<rparr>))"

text \<open>
  The generator driven by a consumer: \<open>body\<close> is the body of the consumer's
  \<^verbatim>\<open>for\<close> loop, run at every yield on the consumer's state and the shared store.
\<close>

fun generate ::
  "(addr \<Rightarrow> 'c \<times> heap \<Rightarrow> 'c \<times> heap) \<Rightarrow> block list \<Rightarrow> gen_state \<Rightarrow> 'c \<Rightarrow> 'c \<times> gen_state"
where
  "generate body [] g c = (c, g)"
| "generate body (b # bs) g c =
     (case block_step b g of
        (None, g') \<Rightarrow> generate body bs g' c
      | (Some a, g') \<Rightarrow>
          (case body a (c, heap g') of
             (c', h') \<Rightarrow> generate body bs (g'\<lparr>heap := h'\<rparr>) c'))"

text \<open>\<^verbatim>\<open>range(start_page - 1, file.page_count)\<close>, and the blocks of those pages in order.\<close>

definition page_numbers :: "document \<Rightarrow> int \<Rightarrow> int list" where
  "page_numbers file start_page = [start_page - 1 .. int (page_count file) - 1]"

definition text_blocks :: "document \<Rightarrow> int \<Rightarrow> block list option" where
  "text_blocks file start_page =
     map_option concat (those (map (load_page file) (page_numbers file start_page)))"

text \<open>The consumer that only collects what is yielded, as \<^verbatim>\<open>list(...)\<close> does.\<close>

definition collect :: "addr \<Rightarrow> addr list \<times> heap \<Rightarrow> addr list \<times> heap" where
  "collect a = (\<lambda>(out, h). (out @ [a], h))"

definition extract_blocks :: "block list \<Rightarrow> addr list \<times> gen_state" where
  "extract_blocks bs = generate collect bs init_gen []"

text \<open>
  The extractor run to its end: the addresses yielded, in order, and the final store.
  \<open>None\<close>: a page could not be loaded and the exception ends the run.
\<close>

definition extract_information_from_pdf :: "document \<Rightarrow> int \<Rightarrow> (addr list \<times> heap) option" where
  "extract_information_from_pdf file start_page =
     (case text_blocks file start_page of
        None \<Rightarrow> None
      | Some bs \<Rightarrow> (case extract_blocks bs of (out, g) \<Rightarrow> Some (out, heap g)))"

section \<open>Merger\<close>

record merge_state =
  merged_blocks :: "addr list"
  current_block :: "addr option"

definition init_merge :: merge_state where
  "init_merge = \<lparr>merged_blocks = [], current_block = None\<rparr>"

text \<open>
  The body of the loop of lines 98 to 107. An article dictionary has five keys, so
  \<^verbatim>\<open>not current_block\<close> holds exactly when the variable is \<^verbatim>\<open>None\<close>.
\<close>

definition merge_body :: "addr \<Rightarrow> merge_state \<times> heap \<Rightarrow> merge_state \<times> heap" where
  "merge_body blk = (\<lambda>(m, h).
     case current_block m of
       None \<Rightarrow> (m\<lparr>current_block := Some blk\<rparr>, h)
     | Some c \<Rightarrow>
         if session (h blk) \<noteq> [] then
           (\<lparr>merged_blocks = merged_blocks m @ [c], current_block = Some blk\<rparr>, h)
         else (m, h(c := extend_article (h c) (h blk))))"

definition merge_finish :: "merge_state \<Rightarrow> addr list" where
  "merge_finish m =
     (case current_block m of None \<Rightarrow> merged_blocks m | Some c \<Rightarrow> merged_blocks m @ [c])"

text \<open>The merger on a list of records.\<close>

definition merge_information_blocks :: "addr list \<Rightarrow> heap \<Rightarrow> addr list \<times> heap" where
  "merge_information_blocks blocks h =
     (case foldl (\<lambda>s blk. merge_body blk s) (init_merge, h) blocks of
        (m, h') \<Rightarrow> (merge_finish m, h'))"

text \<open>The merger on the extractor's generator, as the entry point calls it.\<close>

definition merge_generated :: "block list \<Rightarrow> addr list \<times> heap" where
  "merge_generated bs =
     (case generate merge_body bs init_gen init_merge of
        (m, g) \<Rightarrow> (merge_finish m, heap g))"

text \<open>
  The merger as the specification words it, on record values: a record opens a block,
  the records without a session that follow extend it, and a record with a session
  closes it and opens the next.
\<close>

fun coalesce_runs :: "article \<Rightarrow> article list \<Rightarrow> article list" where
  "coalesce_runs cur [] = [cur]"
| "coalesce_runs cur (r # rs) =
     (if session r \<noteq> [] then cur # coalesce_runs r rs
      else coalesce_runs (extend_article cur r) rs)"

definition merge_spec :: "article list \<Rightarrow> article list" where
  "merge_spec rs = (case rs of [] \<Rightarrow> [] | r # rs' \<Rightarrow> coalesce_runs r rs')"

section \<open>Writer\<close>

text \<open>
  The active sheet of a workbook, by the values of its cells: a list of rows of six
  cells, columns A to F. Cell styles are left out; the header fill of the entry point
  changes no value.
\<close>

record xrow =
  col_A :: string
  col_B :: string
  col_C :: string
  col_D :: string
  col_E :: string
  col_F :: string

type_synonym sheet = "xrow list"

text \<open>The spreadsheet files, by path; \<open>None\<close>: no file at that path.\<close>

type_synonym files = "string \<rightharpoonup> sheet"

definition header_row :: xrow where
  "header_row =
     \<lparr>col_A = ''Name (incl, titles if any mentioned'', col_B = ''Affiliations'',
      col_C = ''Session name'', col_D = ''Persons Location'', col_E = ''Topic Title'',
      col_F = ''Presentation Abstract''\<rparr>"

definition create_excel_file_with_headers :: "string \<Rightarrow> files \<Rightarrow> files" where
  "create_excel_file_with_headers file_path fs = fs(file_path \<mapsto> [header_row])"

definition blank_row :: xrow where
  "blank_row = \<lparr>col_A = [], col_B = [], col_C = [], col_D = [], col_E = [], col_F = []\<rparr>"

text \<open>The sheet's \<^verbatim>\<open>max_row\<close>: the number of the last row, and 1 on a sheet without cells.\<close>

definition max_row :: "sheet \<Rightarrow> nat" where
  "max_row sh = max 1 (length sh)"

text \<open>Assigning the six cells of row number \<open>row\<close> (counted from 1).\<close>

definition set_row :: "nat \<Rightarrow> xrow \<Rightarrow> sheet \<Rightarrow> sheet" where
  "set_row row r sh = (sh @ replicate (row - length sh) blank_row)[row - 1 := r]"

text \<open>\<^verbatim>\<open>", ".join(...)\<close>\<close>

fun join_comma :: "string list \<Rightarrow> string" where
  "join_comma [] = []"
| "join_comma [x] = x"
| "join_comma (x # y # ys) = x @ '', '' @ join_comma (y # ys)"

text \<open>
  A Python tuple of strings is the list of its components, so that tuples of different
  lengths can be members of one set, as in \<^verbatim>\<open>existing_authors\<close>.
\<close>

type_synonym tuple = "string list"

text \<open>The body of the loop over the authors of a block (lines 142 to 155).\<close>

definition write_author :: "article \<Rightarrow> string \<Rightarrow> tuple set \<times> sheet \<Rightarrow> tuple set \<times> sheet" where
  "write_author blk author0 = (\<lambda>(existing_authors, sh).
     let author = (if take 1 author0 = '','' then drop 2 author0 else author0);
         author_tuple = [session blk, author]
     in if author_tuple \<in> existing_authors then (existing_authors, sh)
        else
          (insert author_tuple existing_authors,
           set_row (max_row sh + 1)
             \<lparr>col_A = author, col_B = join_comma (affiliations blk), col_C = session blk,
              col_D = [], col_E = title blk, col_F = abstract blk\<rparr> sh))"

text \<open>The condition of line 138.\<close>

definition skip_condition :: "article \<Rightarrow> tuple set \<Rightarrow> bool" where
  "skip_condition blk existing_authors \<longleftrightarrow>
     session blk \<noteq> [] \<and> authors blk \<in> existing_authors"

text \<open>The body of the loop over blocks (lines 132 to 155).\<close>

definition write_block :: "article \<Rightarrow> tuple set \<times> sheet \<Rightarrow> tuple set \<times> sheet" where
  "write_block blk = (\<lambda>(existing_authors, sh).
     if skip_condition blk existing_authors then (existing_authors, sh)
     else foldl (\<lambda>s author. write_author blk author s) (existing_authors, sh) (authors blk))"

definition write_blocks :: "article list \<Rightarrow> tuple set \<times> sheet \<Rightarrow> tuple set \<times> sheet" where
  "write_blocks blocks s = foldl (\<lambda>s blk. write_block blk s) s blocks"

text \<open>The values the condition of line 138 takes, block by block, in one run of the loop.\<close>

fun skip_trace :: "article list \<Rightarrow> tuple set \<times> sheet \<Rightarrow> bool list" where
  "skip_trace [] s = []"
| "skip_trace (blk # blks) s = skip_condition blk (fst s) # skip_trace blks (write_block blk s)"

definition save_to_excel_file :: "article list \<Rightarrow> string \<Rightarrow> files \<Rightarrow> files" where
  "save_to_excel_file blocks file_path fs =
     (let fs1 = (if fs file_path = None then create_excel_file_with_headers file_path fs else fs)
      in case fs1 file_path of
           None \<Rightarrow> fs1
         | Some sh \<Rightarrow> fs1(file_path \<mapsto> snd (write_blocks blocks ({}, sh))))"

text \<open>The rows that a call leaves below the rows the sheet had when it was loaded.\<close>

definition appended_rows :: "sheet \<Rightarrow> sheet \<Rightarrow> xrow list" where
  "appended_rows before after = drop (max_row before) after"

section \<open>Entry point\<close>

text \<open>
  Lines 183 to 199 for a start page; \<open>book\<close> is the document opened from
  \<^verbatim>\<open>book.pdf\<close>. The merged list holds references, read when the writer runs.
\<close>

definition run_from :: "int \<Rightarrow> document \<Rightarrow> files \<Rightarrow> files option" where
  "run_from start_page book fs =
     (let excel_file = ''result.xlsx'' in
      case text_blocks book start_page of
        None \<Rightarrow> None
      | Some bs \<Rightarrow>
          (case merge_generated bs of
             (merged_information_blocks, h) \<Rightarrow>
               let fs1 = save_to_excel_file (map h merged_information_blocks) excel_file fs;
                   fs2 = (if fs1 excel_file = None
                          then create_excel_file_with_headers excel_file fs1 else fs1)
               in Some (save_to_excel_file (map h merged_information_blocks) excel_file fs2)))"

definition main_program :: "document \<Rightarrow> files \<Rightarrow> files option" where
  "main_program book fs = run_from 44 book fs"

section \<open>Test documents\<close>

definition talk_block :: block where
  "talk_block =
     \<lparr>block_type = 0,
      block_lines =
        [[\<lparr>span_font = ''TimesNewRomanPS-BoldMT'', span_size = 9, span_text = ''Talk A''\<rparr>,
          \<lparr>span_font = ''TimesNewRomanPS-BoldItal'', span_size = 19 / 2,
           span_text = ''Session 1''\<rparr>,
          \<lparr>span_font = ''TimesNewRomanPS-ItalicMT'', span_size = 9, span_text = ''Dr. X''\<rparr>]]\<rparr>"

text \<open>Two pages: the first holds the block above, the second is empty.\<close>

definition synthetic_pdf :: document where
  "synthetic_pdf =
     \<lparr>page_count = 2,
      load_page = (\<lambda>i. if i = 0 then Some [talk_block] else if i = 1 then Some [] else None)\<rparr>"





text \<open>A record without a session and a store that holds only it.\<close>

definition orphan_heap :: heap where
  "orphan_heap = (\<lambda>_. empty_article)(0 := empty_article\<lparr>title := ''Talk A''\<rparr>)"

text \<open>Three records: two without a session, then one with a session.\<close>

definition three_records :: heap where
  "three_records =
     (\<lambda>_. empty_article)
       (0 := empty_article\<lparr>title := ''Talk'', affiliations := [''Kyiv'']\<rparr>,
        1 := empty_article\<lparr>title := '' A'', abstract := ''Text''\<rparr>,
        2 := empty_article\<lparr>session := ''Session 1'', title := ''Talk B''\<rparr>)"

text \<open>
  Two records for the writer: the author list of the second is the pair of the first
  record's session and author.
\<close>

definition first_talk :: article where
  "first_talk =
     \<lparr>authors = [''Dr. X''], affiliations = [], session = ''Session 1'', title = ''Talk A'',
      abstract = []\<rparr>"

definition echo_talk :: article where
  "echo_talk =
     \<lparr>authors = [''Session 1'', ''Dr. X''], affiliations = [], session = ''Session 2'',
      title = ''Talk B'', abstract = []\<rparr>"

text \<open>A record whose authors carry the leading comma, once followed by a letter.\<close>

definition comma_talk :: article where
  "comma_talk =
     \<lparr>authors = [''Ann'', '', Ann'', '',Bob''], affiliations = [''Kyiv'', ''Lviv''],
      session = ''Session 1'', title = ''Talk A'', abstract = ''Text''\<rparr>"

section \<open>Span classification\<close>

lemmas span_defs = is_paragraph_def is_title_def is_authors_def is_affiliations_def is_abstract_def
  FONT_SIZE_PARAGRAPH_def FONT_SIZE_TITLE_def FONT_SIZE_AUTHORS_def FONT_SIZE_AFFILIATIONS_def FONT_SIZE_ABSTRACT_def

lemma add_span_unmatched:
  "\<not> (is_paragraph sp \<or> is_title sp \<or> is_authors sp \<or> is_affiliations sp \<or> is_abstract sp)
   \<Longrightarrow> add_span a sp = a"
  by (simp add: add_span_def)

lemma foldl_add_span_filter:
  "foldl add_span a (filter (\<lambda>sp. is_paragraph sp \<or> is_title sp \<or> is_authors sp \<or>
       is_affiliations sp \<or> is_abstract sp) spans) = foldl add_span a spans"
proof (induction spans arbitrary: a)
  case Nil
  then show ?case by simp
next
  case (Cons sp spans)
  then show ?case by (simp add: add_span_unmatched)
qed

lemma foldl_lines_filter:
  "foldl (\<lambda>art line. foldl add_span art line) a
     (map (filter (\<lambda>sp. is_paragraph sp \<or> is_title sp \<or> is_authors sp \<or>
       is_affiliations sp \<or> is_abstract sp)) lns) =
   foldl (\<lambda>art line. foldl add_span art line) a lns"
  by (induction lns arbitrary: a) (simp_all add: foldl_add_span_filter)

lemma roles_exclusive:
  "is_paragraph sp \<Longrightarrow> \<not> is_title sp \<and> \<not> is_authors sp \<and> \<not> is_affiliations sp \<and> \<not> is_abstract sp"
  "is_title sp \<Longrightarrow> \<not> is_paragraph sp \<and> \<not> is_authors sp \<and> \<not> is_affiliations sp \<and> \<not> is_abstract sp"
  "is_authors sp \<Longrightarrow> \<not> is_paragraph sp \<and> \<not> is_title sp \<and> \<not> is_affiliations sp \<and> \<not> is_abstract sp"
  "is_affiliations sp \<Longrightarrow> \<not> is_paragraph sp \<and> \<not> is_title sp \<and> \<not> is_authors sp \<and> \<not> is_abstract sp"
  "is_abstract sp \<Longrightarrow> \<not> is_paragraph sp \<and> \<not> is_title sp \<and> \<not> is_authors sp \<and> \<not> is_affiliations sp"
  by (auto simp: span_defs)

text \<open>
  Claim C2, as the code has it. Four roles are decided by the font name together with the
  font size, the abstract role by the font size alone. The five tests exclude one
  another, so a span extends at most one field, and it extends that field by its text;
  a span that passes none of the tests leaves the article as it is, and a block reads
  the same with such spans removed.
\<close>

theorem span_roles:
  "(is_paragraph sp \<longleftrightarrow> span_font sp = ''TimesNewRomanPS-BoldItal'' \<and> span_size sp = 19 / 2) \<and>
   (is_title sp \<longleftrightarrow> span_font sp = ''TimesNewRomanPS-BoldMT'' \<and> span_size sp = 9) \<and>
   (is_authors sp \<longleftrightarrow> span_font sp = ''TimesNewRomanPS-ItalicMT'' \<and> span_size sp = 9) \<and>
   (is_affiliations sp \<longleftrightarrow> span_font sp = ''TimesNewRomanPS-ItalicMT'' \<and> span_size sp = 8) \<and>
   (is_abstract sp \<longleftrightarrow> span_size sp = 299303 / 32768) \<and>
   (is_paragraph sp \<longrightarrow>
      add_span a sp = a\<lparr>session := session a @ span_text sp\<rparr> \<and>
      \<not> is_title sp \<and> \<not> is_authors sp \<and> \<not> is_affiliations sp \<and> \<not> is_abstract sp) \<and>
   (is_title sp \<longrightarrow>
      add_span a sp = a\<lparr>title := title a @ span_text sp\<rparr> \<and>
      \<not> is_paragraph sp \<and> \<not> is_authors sp \<and> \<not> is_affiliations sp \<and> \<not> is_abstract sp) \<and>
   (is_authors sp \<longrightarrow>
      add_span a sp = a\<lparr>authors := authors a @ [span_text sp]\<rparr> \<and>
      \<not> is_paragraph sp \<and> \<not> is_title sp \<and> \<not> is_affiliations sp \<and> \<not> is_abstract sp) \<and>
   (is_affiliations sp \<longrightarrow>
      add_span a sp = a\<lparr>affiliations := affiliations a @ [span_text sp]\<rparr> \<and>
      \<not> is_paragraph sp \<and> \<not> is_title sp \<and> \<not> is_authors sp \<and> \<not> is_abstract sp) \<and>
   (is_abstract sp \<longrightarrow>
      add_span a sp = a\<lparr>abstract := abstract a @ span_text sp\<rparr> \<and>
      \<not> is_paragraph sp \<and> \<not> is_title sp \<and> \<not> is_authors sp \<and> \<not> is_affiliations sp) \<and>
   (\<not> is_paragraph sp \<and> \<not> is_title sp \<and> \<not> is_authors sp \<and> \<not> is_affiliations sp \<and>
    \<not> is_abstract sp \<longrightarrow> add_span a sp = a) \<and>
   read_block b =
     read_block (b\<lparr>block_lines :=
       map (filter (\<lambda>sp. is_paragraph sp \<or> is_title sp \<or> is_authors sp \<or>
                         is_affiliations sp \<or> is_abstract sp)) (block_lines b)\<rparr>)"
proof -
  have defs: "(is_paragraph sp \<longleftrightarrow> span_font sp = ''TimesNewRomanPS-BoldItal'' \<and> span_size sp = 19 / 2)"
    "(is_title sp \<longleftrightarrow> span_font sp = ''TimesNewRomanPS-BoldMT'' \<and> span_size sp = 9)"
    "(is_authors sp \<longleftrightarrow> span_font sp = ''TimesNewRomanPS-ItalicMT'' \<and> span_size sp = 9)"
    "(is_affiliations sp \<longleftrightarrow> span_font sp = ''TimesNewRomanPS-ItalicMT'' \<and> span_size sp = 8)"
    "(is_abstract sp \<longleftrightarrow> span_size sp = 299303 / 32768)"
    by (simp_all add: span_defs)
  have p: "is_paragraph sp \<longrightarrow>
      add_span a sp = a\<lparr>session := session a @ span_text sp\<rparr> \<and>
      \<not> is_title sp \<and> \<not> is_authors sp \<and> \<not> is_affiliations sp \<and> \<not> is_abstract sp"
    using roles_exclusive(1)[of sp] by (simp add: add_span_def)
  have t: "is_title sp \<longrightarrow>
      add_span a sp = a\<lparr>title := title a @ span_text sp\<rparr> \<and>
      \<not> is_paragraph sp \<and> \<not> is_authors sp \<and> \<not> is_affiliations sp \<and> \<not> is_abstract sp"
    using roles_exclusive(2)[of sp] by (simp add: add_span_def)
  have au: "is_authors sp \<longrightarrow>
      add_span a sp = a\<lparr>authors := authors a @ [span_text sp]\<rparr> \<and>
      \<not> is_paragraph sp \<and> \<not> is_title sp \<and> \<not> is_affiliations sp \<and> \<not> is_abstract sp"
    using roles_exclusive(3)[of sp] by (simp add: add_span_def)
  have af: "is_affiliations sp \<longrightarrow>
      add_span a sp = a\<lparr>affiliations := affiliations a @ [span_text sp]\<rparr> \<and>
      \<not> is_paragraph sp \<and> \<not> is_title sp \<and> \<not> is_authors sp \<and> \<not> is_abstract sp"
    using roles_exclusive(4)[of sp] by (simp add: add_span_def)
  have ab: "is_abstract sp \<longrightarrow>
      add_span a sp = a\<lparr>abstract := abstract a @ span_text sp\<rparr> \<and>
      \<not> is_paragraph sp \<and> \<not> is_title sp \<and> \<not> is_authors sp \<and> \<not> is_affiliations sp"
    using roles_exclusive(5)[of sp] by (simp add: add_span_def)
  have n: "\<not> is_paragraph sp \<and> \<not> is_title sp \<and> \<not> is_authors sp \<and> \<not> is_affiliations sp \<and>
    \<not> is_abstract sp \<longrightarrow> add_span a sp = a"
    by (simp add: add_span_def)
  have blk: "read_block b =
     read_block (b\<lparr>block_lines :=
       map (filter (\<lambda>sp. is_paragraph sp \<or> is_title sp \<or> is_authors sp \<or>
                         is_affiliations sp \<or> is_abstract sp)) (block_lines b)\<rparr>)"
    by (simp add: read_block_def foldl_lines_filter)
  show ?thesis using defs p t au af ab n blk by blast
qed

text \<open>
  Claim C2 as worded asks for a match of the font name for every role. A span in a font
  that is none of the three font names, at the abstract size, is taken as abstract text.
\<close>

theorem abstract_role_ignores_font:
  "add_span empty_article
     \<lparr>span_font = ''Helvetica'', span_size = 299303 / 32768, span_text = ''Methods''\<rparr> =
   empty_article\<lparr>abstract := ''Methods''\<rparr> \<and>
   ''Helvetica'' \<notin> {''TimesNewRomanPS-BoldItal'', ''TimesNewRomanPS-BoldMT'',
                     ''TimesNewRomanPS-ItalicMT''}"
  by (simp add: add_span_def span_defs empty_article_def)

text \<open>
  Claim C2, witness: a title span extends the title and is no abstract span; a page
  number in another font and size leaves a record unchanged.
\<close>

theorem span_roles_witness:
  "is_title \<lparr>span_font = ''TimesNewRomanPS-BoldMT'', span_size = 9, span_text = ''Talk A''\<rparr> \<and>
   add_span empty_article
     \<lparr>span_font = ''TimesNewRomanPS-BoldMT'', span_size = 9, span_text = ''Talk A''\<rparr> =
   empty_article\<lparr>title := ''Talk A''\<rparr> \<and>
   \<not> is_abstract \<lparr>span_font = ''TimesNewRomanPS-BoldMT'', span_size = 9, span_text = ''Talk A''\<rparr> \<and>
   add_span first_talk \<lparr>span_font = ''Helvetica'', span_size = 7, span_text = ''44''\<rparr> = first_talk"
proof -
  have t: "is_title \<lparr>span_font = ''TimesNewRomanPS-BoldMT'', span_size = 9, span_text = ''Talk A''\<rparr>"
    by (simp add: span_defs)
  have n: "\<not> is_paragraph \<lparr>span_font = ''Helvetica'', span_size = 7, span_text = ''44''\<rparr> \<and>
    \<not> is_title \<lparr>span_font = ''Helvetica'', span_size = 7, span_text = ''44''\<rparr> \<and>
    \<not> is_authors \<lparr>span_font = ''Helvetica'', span_size = 7, span_text = ''44''\<rparr> \<and>
    \<not> is_affiliations \<lparr>span_font = ''Helvetica'', span_size = 7, span_text = ''44''\<rparr> \<and>
    \<not> is_abstract \<lparr>span_font = ''Helvetica'', span_size = 7, span_text = ''44''\<rparr>"
    by (simp add: span_defs)
  have a: "add_span empty_article
     \<lparr>span_font = ''TimesNewRomanPS-BoldMT'', span_size = 9, span_text = ''Talk A''\<rparr> =
       empty_article\<lparr>title := title empty_article @
         span_text \<lparr>span_font = ''TimesNewRomanPS-BoldMT'', span_size = 9,
                    span_text = ''Talk A''\<rparr>\<rparr> \<and>
     \<not> is_abstract \<lparr>span_font = ''TimesNewRomanPS-BoldMT'', span_size = 9, span_text = ''Talk A''\<rparr>"
    using t
      span_roles[of "\<lparr>span_font = ''TimesNewRomanPS-BoldMT'', span_size = 9, span_text = ''Talk A''\<rparr>"
        empty_article]
    by blast
  have b: "add_span first_talk \<lparr>span_font = ''Helvetica'', span_size = 7, span_text = ''44''\<rparr> =
      first_talk"
    using n span_roles[of "\<lparr>span_font = ''Helvetica'', span_size = 7, span_text = ''44''\<rparr>" first_talk]
    by blast
  show ?thesis using t a b by (simp add: empty_article_def)
qed

section \<open>Extractor: the record a continuation block extends\<close>
























section \<open>Merger\<close>

lemma session_extend_article [simp]: "session (extend_article a b) = session a"
  by (simp add: extend_article_def)

lemma merge_loop_open:
  "foldl (\<lambda>s blk. merge_body blk s) (\<lparr>merged_blocks = ms, current_block = Some c\<rparr>, h) bs = (m', h')
   \<Longrightarrow> merge_finish m' = ms @ c # filter (\<lambda>a. session (h a) \<noteq> []) bs \<and>
       (\<forall>a. session (h' a) = session (h a))"
proof (induction bs arbitrary: ms c h)
  case Nil
  then show ?case by (auto simp: merge_finish_def)
next
  case (Cons b bs)
  show ?case
  proof (cases "session (h b) = []")
    case True
    define h1 where "h1 = h(c := extend_article (h c) (h b))"
    have sess: "\<And>a. session (h1 a) = session (h a)" by (simp add: h1_def)
    from Cons.prems True have
      "foldl (\<lambda>s blk. merge_body blk s) (\<lparr>merged_blocks = ms, current_block = Some c\<rparr>, h1) bs = (m', h')"
      by (simp add: merge_body_def h1_def)
    from Cons.IH[OF this] show ?thesis using True by (simp add: sess)
  next
    case False
    from Cons.prems False have
      "foldl (\<lambda>s blk. merge_body blk s) (\<lparr>merged_blocks = ms @ [c], current_block = Some b\<rparr>, h) bs = (m', h')"
      by (simp add: merge_body_def)
    from Cons.IH[OF this] show ?thesis using False by simp
  qed
qed

lemma merge_information_blocks_Nil: "merge_information_blocks [] h = ([], h)"
  by (simp add: merge_information_blocks_def init_merge_def merge_finish_def)

lemma merge_information_blocks_Cons:
  "merge_information_blocks (b # bs) h =
     (case foldl (\<lambda>s blk. merge_body blk s) (\<lparr>merged_blocks = [], current_block = Some b\<rparr>, h) bs of
        (m, h') \<Rightarrow> (merge_finish m, h'))"
  by (simp add: merge_information_blocks_def init_merge_def merge_body_def)

lemma merge_output:
  assumes "merge_information_blocks blocks h = (out, h')"
  shows "out = (case blocks of [] \<Rightarrow> [] | b # bs \<Rightarrow> b # filter (\<lambda>a. session (h a) \<noteq> []) bs)"
    and "\<forall>a. session (h' a) = session (h a)"
proof -
  show "out = (case blocks of [] \<Rightarrow> [] | b # bs \<Rightarrow> b # filter (\<lambda>a. session (h a) \<noteq> []) bs)"
  proof (cases blocks)
    case Nil
    with assms show ?thesis by (simp add: merge_information_blocks_Nil)
  next
    case (Cons b bs)
    obtain m where f: "foldl (\<lambda>s blk. merge_body blk s) (\<lparr>merged_blocks = [], current_block = Some b\<rparr>, h) bs = (m, h')"
      and o: "out = merge_finish m"
      using assms Cons by (auto simp: merge_information_blocks_Cons split: prod.splits)
    from merge_loop_open[OF f] o Cons show ?thesis by simp
  qed
  show "\<forall>a. session (h' a) = session (h a)"
  proof (cases blocks)
    case Nil
    with assms show ?thesis by (simp add: merge_information_blocks_Nil)
  next
    case (Cons b bs)
    obtain m where f: "foldl (\<lambda>s blk. merge_body blk s) (\<lparr>merged_blocks = [], current_block = Some b\<rparr>, h) bs = (m, h')"
      using assms Cons by (auto simp: merge_information_blocks_Cons split: prod.splits)
    from merge_loop_open[OF f] show ?thesis by simp
  qed
qed

text \<open>
  Claim C5. In the list that \<^verbatim>\<open>merge_information_blocks\<close> returns, read in the store
  it leaves, no two neighbours both have an empty session.
\<close>

theorem merged_no_two_sessionless:
  assumes "merge_information_blocks blocks h = (out, h')" and "Suc i < length out"
  shows "\<not> (session (h' (out ! i)) = [] \<and> session (h' (out ! Suc i)) = [])"
proof -
  from assms(2) obtain b bs where bl: "blocks = b # bs"
    using merge_output(1)[OF assms(1)] by (cases blocks) auto
  let ?f = "filter (\<lambda>a. session (h a) \<noteq> []) bs"
  have out: "out = b # ?f" using merge_output(1)[OF assms(1)] bl by simp
  with assms(2) have "i < length ?f" by simp
  then have "?f ! i \<in> set ?f" by (rule nth_mem)
  then have "session (h (?f ! i)) \<noteq> []" by simp
  moreover have "out ! Suc i = ?f ! i" using out by simp
  ultimately show ?thesis using merge_output(2)[OF assms(1)] by simp
qed

lemma three_records_merged:
  "merge_information_blocks [0, 1, 2] three_records =
     ([0, 2], three_records(0 := extend_article (three_records 0) (three_records 1)))"
  by (simp add: merge_information_blocks_def merge_body_def init_merge_def merge_finish_def
      three_records_def empty_article_def)

text \<open>
  Claim C5, witness: three records, the first two without a session, merge into two
  records of which the second has a session.
\<close>

theorem merged_no_two_sessionless_witness:
  "Suc 0 < length (fst (merge_information_blocks [0, 1, 2] three_records)) \<and>
   \<not> (session (snd (merge_information_blocks [0, 1, 2] three_records)
               (fst (merge_information_blocks [0, 1, 2] three_records) ! 0)) = [] \<and>
      session (snd (merge_information_blocks [0, 1, 2] three_records)
               (fst (merge_information_blocks [0, 1, 2] three_records) ! Suc 0)) = [])"
proof -
  have l: "Suc 0 < length [0::nat, 2]" by simp
  have f: "fst (merge_information_blocks [0, 1, 2] three_records) = [0, 2]"
    by (simp only: three_records_merged fst_conv)
  have s: "snd (merge_information_blocks [0, 1, 2] three_records) =
      three_records(0 := extend_article (three_records 0) (three_records 1))"
    by (simp only: three_records_merged snd_conv)
  show ?thesis unfolding f s using l merged_no_two_sessionless[OF three_records_merged l] by blast
qed

lemma merge_loop_values:
  "foldl (\<lambda>s blk. merge_body blk s) (\<lparr>merged_blocks = ms, current_block = Some c\<rparr>, h) bs = (m', h')
   \<Longrightarrow> distinct (c # bs) \<Longrightarrow> set ms \<inter> set (c # bs) = {}
   \<Longrightarrow> map h' (merge_finish m') = map h ms @ coalesce_runs (h c) (map h bs)"
proof (induction bs arbitrary: ms c h)
  case Nil
  then show ?case by (auto simp: merge_finish_def)
next
  case (Cons b bs)
  show ?case
  proof (cases "session (h b) = []")
    case True
    define h1 where "h1 = h(c := extend_article (h c) (h b))"
    from Cons.prems(1) True have run:
      "foldl (\<lambda>s blk. merge_body blk s) (\<lparr>merged_blocks = ms, current_block = Some c\<rparr>, h1) bs = (m', h')"
      by (simp add: merge_body_def h1_def)
    have d: "distinct (c # bs)" using Cons.prems(2) by simp
    have i: "set ms \<inter> set (c # bs) = {}" using Cons.prems(3) by auto
    have ms: "map h1 ms = map h ms" using Cons.prems(3) by (auto simp: h1_def)
    have bs: "map h1 bs = map h bs" using Cons.prems(2) by (auto simp: h1_def)
    have c: "h1 c = extend_article (h c) (h b)" by (simp add: h1_def)
    from Cons.IH[OF run d i] show ?thesis using True by (simp add: ms bs c)
  next
    case False
    from Cons.prems(1) False have run:
      "foldl (\<lambda>s blk. merge_body blk s) (\<lparr>merged_blocks = ms @ [c], current_block = Some b\<rparr>, h) bs = (m', h')"
      by (simp add: merge_body_def)
    have d: "distinct (b # bs)" using Cons.prems(2) by simp
    have i: "set (ms @ [c]) \<inter> set (b # bs) = {}" using Cons.prems(2,3) by auto
    from Cons.IH[OF run d i] show ?thesis using False by simp
  qed
qed

text \<open>
  Claim C6, as the code has it. The first record opens a block whatever its session, and
  every later record with a session opens the next: the result has one record for the
  first input record and one for each later record with a session. When no record object
  occurs twice in the input, the records returned are those of \<open>merge_spec\<close>: every
  opening record extended by the titles, affiliations and abstracts of the records
  without a session that follow it.
\<close>

theorem merge_refines_spec:
  assumes "merge_information_blocks blocks h = (out, h')"
  shows "length out =
           (if blocks = [] then 0
            else 1 + length (filter (\<lambda>a. session (h a) \<noteq> []) (tl blocks))) \<and>
         (distinct blocks \<longrightarrow> map h' out = merge_spec (map h blocks))"
proof (cases blocks)
  case Nil
  with assms show ?thesis by (simp add: merge_information_blocks_Nil merge_spec_def)
next
  case (Cons b bs)
  obtain m where f: "foldl (\<lambda>s blk. merge_body blk s) (\<lparr>merged_blocks = [], current_block = Some b\<rparr>, h) bs = (m, h')"
    and o: "out = merge_finish m"
    using assms Cons by (auto simp: merge_information_blocks_Cons split: prod.splits)
  have len: "length out = 1 + length (filter (\<lambda>a. session (h a) \<noteq> []) bs)"
    using merge_output(1)[OF assms] Cons by simp
  have "distinct blocks \<Longrightarrow> map h' out = merge_spec (map h blocks)"
    using merge_loop_values[OF f, of] o Cons by (simp add: merge_spec_def)
  with len Cons show ?thesis by simp
qed

text \<open>
  Claim C6 as worded counts one returned record per record with a session. A single
  record without a session is returned, although no record of the input has a session.
\<close>

theorem sessionless_first_record_returned:
  "length (fst (merge_information_blocks [0] orphan_heap)) = 1 \<and>
   length (filter (\<lambda>a. session (orphan_heap a) \<noteq> []) [0]) = 0"
  by (simp add: merge_information_blocks_def merge_body_def init_merge_def merge_finish_def
      orphan_heap_def empty_article_def)

text \<open>
  Claim C6, witness: with three distinct records the first two are joined and the third
  is returned as it is.
\<close>

theorem merge_refines_spec_witness:
  "distinct [0::nat, 1, 2] \<and>
   length (fst (merge_information_blocks [0, 1, 2] three_records)) = 2 \<and>
   map (snd (merge_information_blocks [0, 1, 2] three_records))
       (fst (merge_information_blocks [0, 1, 2] three_records)) =
     [empty_article\<lparr>title := ''Talk A'', affiliations := [''Kyiv''], abstract := ''Text''\<rparr>,
      empty_article\<lparr>session := ''Session 1'', title := ''Talk B''\<rparr>]"
proof -
  have d: "distinct [0::nat, 1, 2]" by simp
  have f: "fst (merge_information_blocks [0, 1, 2] three_records) = [0, 2]"
    by (simp only: three_records_merged fst_conv)
  have s: "snd (merge_information_blocks [0, 1, 2] three_records) =
      three_records(0 := extend_article (three_records 0) (three_records 1))"
    by (simp only: three_records_merged snd_conv)
  have m: "map (three_records(0 := extend_article (three_records 0) (three_records 1))) [0, 2] =
      merge_spec (map three_records [0, 1, 2])"
    using merge_refines_spec[OF three_records_merged] d by blast
  have v: "merge_spec (map three_records [0, 1, 2]) =
     [empty_article\<lparr>title := ''Talk A'', affiliations := [''Kyiv''], abstract := ''Text''\<rparr>,
      empty_article\<lparr>session := ''Session 1'', title := ''Talk B''\<rparr>]"
    by (simp add: merge_spec_def three_records_def extend_article_def empty_article_def)
  show ?thesis unfolding f s m v using d by simp
qed

section \<open>Writer\<close>

lemma set_row_next:
  "set_row (max_row sh + 1) r sh = (if sh = [] then [blank_row, r] else sh @ [r])"
  by (cases sh) (simp_all add: set_row_def max_row_def)

lemma max_row_set_row: "max_row (set_row (max_row sh + 1) r sh) = max_row sh + 1"
  unfolding set_row_next by (cases sh) (simp_all add: max_row_def)

lemma drop_set_row:
  assumes "1 \<le> n0" and "n0 \<le> max_row sh"
  shows "drop n0 (set_row (max_row sh + 1) r sh) = drop n0 sh @ [r]"
proof (cases sh)
  case Nil
  with assms have n0: "n0 = 1" by (simp add: max_row_def)
  have "set_row (max_row sh + 1) r sh = [blank_row, r]" unfolding set_row_next using Nil by simp
  then show ?thesis using n0 Nil by simp
next
  case (Cons x xs)
  have "set_row (max_row sh + 1) r sh = sh @ [r]" unfolding set_row_next using Cons by simp
  moreover have "n0 \<le> length sh" using assms(2) Cons by (simp add: max_row_def)
  ultimately show ?thesis by simp
qed

lemma write_author_seen:
  "fst (write_author blk a (seen, sh)) =
     insert [session blk, if take 1 a = '','' then drop 2 a else a] seen"
  by (auto simp: write_author_def Let_def)

lemma write_authors_seen:
  "fst (foldl (\<lambda>s author. write_author blk author s) (seen, sh) as) =
     seen \<union> (\<lambda>a. [session blk, if take 1 a = '','' then drop 2 a else a]) ` set as"
proof (induction as arbitrary: seen sh)
  case Nil
  then show ?case by simp
next
  case (Cons a as)
  obtain seen1 sh1 where st: "write_author blk a (seen, sh) = (seen1, sh1)"
    by (cases "write_author blk a (seen, sh)")
  have "seen1 = insert [session blk, if take 1 a = '','' then drop 2 a else a] seen"
    using write_author_seen[of blk a seen sh] st by simp
  then show ?case using Cons.IH[of seen1 sh1] st by auto
qed

lemma write_block_seen:
  "fst (write_block blk (seen, sh)) =
     (if skip_condition blk seen then seen
      else seen \<union> (\<lambda>a. [session blk, if take 1 a = '','' then drop 2 a else a]) ` set (authors blk))"
  by (simp add: write_block_def write_authors_seen)

lemma write_author_inv:
  assumes "1 \<le> n0" and "n0 \<le> max_row sh"
    and "seen = (\<lambda>r. [col_C r, col_A r]) ` set (drop n0 sh)"
    and "distinct (map (\<lambda>r. [col_C r, col_A r]) (drop n0 sh))"
    and "write_author blk a (seen, sh) = (seen', sh')"
  shows "n0 \<le> max_row sh' \<and> seen' = (\<lambda>r. [col_C r, col_A r]) ` set (drop n0 sh') \<and>
         distinct (map (\<lambda>r. [col_C r, col_A r]) (drop n0 sh'))"
proof (cases "[session blk, if take 1 a = '','' then drop 2 a else a] \<in> seen")
  case True
  with assms(5) have "(seen', sh') = (seen, sh)" by (simp add: write_author_def Let_def)
  then have "seen' = seen" and "sh' = sh" by simp_all
  then show ?thesis using assms(2,3,4) by blast
next
  case False
  define r where "r = \<lparr>col_A = (if take 1 a = '','' then drop 2 a else a),
     col_B = join_comma (affiliations blk), col_C = session blk,
     col_D = [], col_E = title blk, col_F = abstract blk\<rparr>"
  have key: "[col_C r, col_A r] = [session blk, if take 1 a = '','' then drop 2 a else a]"
    by (simp add: r_def)
  from False assms(5) have s': "seen' = insert [col_C r, col_A r] seen"
    and sh': "sh' = set_row (max_row sh + 1) r sh"
    by (auto simp: write_author_def Let_def r_def)
  have d: "drop n0 sh' = drop n0 sh @ [r]" unfolding sh' by (rule drop_set_row[OF assms(1,2)])
  have m: "n0 \<le> max_row sh'" unfolding sh' max_row_set_row using assms(2) by simp
  have "[col_C r, col_A r] \<notin> (\<lambda>r. [col_C r, col_A r]) ` set (drop n0 sh)"
    using False assms(3) key by simp
  then show ?thesis using m d s' assms(3,4) by auto
qed

lemma write_authors_inv:
  assumes "1 \<le> n0"
  shows "n0 \<le> max_row sh \<Longrightarrow> seen = (\<lambda>r. [col_C r, col_A r]) ` set (drop n0 sh) \<Longrightarrow>
     distinct (map (\<lambda>r. [col_C r, col_A r]) (drop n0 sh)) \<Longrightarrow>
     foldl (\<lambda>s author. write_author blk author s) (seen, sh) as = (seen', sh') \<Longrightarrow>
     n0 \<le> max_row sh' \<and> seen' = (\<lambda>r. [col_C r, col_A r]) ` set (drop n0 sh') \<and>
         distinct (map (\<lambda>r. [col_C r, col_A r]) (drop n0 sh'))"
proof (induction as arbitrary: seen sh)
  case Nil
  from Nil.prems(4) have e: "seen' = seen" "sh' = sh" by simp_all
  show ?case unfolding e using Nil.prems(1,2,3) by blast
next
  case (Cons a as)
  obtain seen1 sh1 where st: "write_author blk a (seen, sh) = (seen1, sh1)"
    by (cases "write_author blk a (seen, sh)")
  from write_author_inv[OF assms Cons.prems(1,2,3) st]
  have i1: "n0 \<le> max_row sh1" "seen1 = (\<lambda>r. [col_C r, col_A r]) ` set (drop n0 sh1)"
    "distinct (map (\<lambda>r. [col_C r, col_A r]) (drop n0 sh1))" by auto
  from Cons.prems(4) st have run:
    "foldl (\<lambda>s author. write_author blk author s) (seen1, sh1) as = (seen', sh')" by simp
  from Cons.IH[OF i1 run] show ?case .
qed

lemma write_blocks_inv:
  assumes "1 \<le> n0"
  shows "n0 \<le> max_row sh \<Longrightarrow> seen = (\<lambda>r. [col_C r, col_A r]) ` set (drop n0 sh) \<Longrightarrow>
     distinct (map (\<lambda>r. [col_C r, col_A r]) (drop n0 sh)) \<Longrightarrow>
     write_blocks blocks (seen, sh) = (seen', sh') \<Longrightarrow>
     n0 \<le> max_row sh' \<and> seen' = (\<lambda>r. [col_C r, col_A r]) ` set (drop n0 sh') \<and>
         distinct (map (\<lambda>r. [col_C r, col_A r]) (drop n0 sh'))"
proof (induction blocks arbitrary: seen sh)
  case Nil
  from Nil.prems(4) have e: "seen' = seen" "sh' = sh" by (simp_all add: write_blocks_def)
  show ?case unfolding e using Nil.prems(1,2,3) by blast
next
  case (Cons blk blocks)
  obtain seen1 sh1 where st: "write_block blk (seen, sh) = (seen1, sh1)"
    by (cases "write_block blk (seen, sh)")
  have i1: "n0 \<le> max_row sh1 \<and> seen1 = (\<lambda>r. [col_C r, col_A r]) ` set (drop n0 sh1) \<and>
    distinct (map (\<lambda>r. [col_C r, col_A r]) (drop n0 sh1))"
  proof (cases "skip_condition blk seen")
    case True
    with st have "(seen1, sh1) = (seen, sh)" by (simp add: write_block_def)
    then have "seen1 = seen" and "sh1 = sh" by simp_all
    then show ?thesis using Cons.prems(1,2,3) by blast
  next
    case False
    with st have "foldl (\<lambda>s author. write_author blk author s) (seen, sh) (authors blk) = (seen1, sh1)"
      by (simp add: write_block_def)
    from write_authors_inv[OF assms Cons.prems(1,2,3) this] show ?thesis .
  qed
  from Cons.prems(4) st have run: "write_blocks blocks (seen1, sh1) = (seen', sh')"
    by (simp add: write_blocks_def)
  from i1 have a: "n0 \<le> max_row sh1" and b: "seen1 = (\<lambda>r. [col_C r, col_A r]) ` set (drop n0 sh1)"
    and c: "distinct (map (\<lambda>r. [col_C r, col_A r]) (drop n0 sh1))" by auto
  from Cons.IH[OF a b c run] show ?case .
qed

lemma write_blocks_from_loaded:
  assumes "write_blocks blocks ({}, sh) = (seen', sh')"
  shows "seen' = (\<lambda>r. [col_C r, col_A r]) ` set (appended_rows sh sh')"
    and "distinct (map (\<lambda>r. [col_C r, col_A r]) (appended_rows sh sh'))"
proof -
  have one: "1 \<le> max_row sh" by (simp add: max_row_def)
  have emp: "drop (max_row sh) sh = []" by (simp add: max_row_def)
  have "max_row sh \<le> max_row sh' \<and> seen' = (\<lambda>r. [col_C r, col_A r]) ` set (drop (max_row sh) sh') \<and>
         distinct (map (\<lambda>r. [col_C r, col_A r]) (drop (max_row sh) sh'))"
    by (rule write_blocks_inv[OF one _ _ _ assms]) (simp_all add: emp)
  then show "seen' = (\<lambda>r. [col_C r, col_A r]) ` set (appended_rows sh sh')"
    and "distinct (map (\<lambda>r. [col_C r, col_A r]) (appended_rows sh sh'))"
    by (simp_all add: appended_rows_def)
qed

lemma save_to_excel_file_loaded:
  "save_to_excel_file blocks file_path fs file_path =
     Some (snd (write_blocks blocks
       ({}, case fs file_path of None \<Rightarrow> [header_row] | Some sh \<Rightarrow> sh)))"
  by (cases "fs file_path") (simp_all add: save_to_excel_file_def create_excel_file_with_headers_def)

lemma distinct_pairs_of_tuples:
  "distinct (map (\<lambda>r. [col_C r, col_A r]) rs) \<Longrightarrow> distinct (map (\<lambda>r. (col_C r, col_A r)) rs)"
  by (auto simp: distinct_map inj_on_def)

text \<open>
  Claim C4. In one call of \<^verbatim>\<open>save_to_excel_file\<close> the rows written below the rows of
  the loaded sheet have pairwise different (session, name) pairs, the name being the
  value of column A.
\<close>

theorem appended_rows_distinct:
  "\<exists>after. save_to_excel_file blocks file_path fs file_path = Some after \<and>
     distinct (map (\<lambda>r. (col_C r, col_A r))
       (appended_rows (case fs file_path of None \<Rightarrow> [header_row] | Some sh \<Rightarrow> sh) after))"
proof -
  define before where "before = (case fs file_path of None \<Rightarrow> [header_row] | Some sh \<Rightarrow> sh)"
  obtain seen' sh' where run: "write_blocks blocks ({}, before) = (seen', sh')"
    by (cases "write_blocks blocks ({}, before)")
  have "save_to_excel_file blocks file_path fs file_path = Some sh'"
    using run by (simp add: save_to_excel_file_loaded before_def)
  moreover have "distinct (map (\<lambda>r. (col_C r, col_A r)) (appended_rows before sh'))"
    by (rule distinct_pairs_of_tuples[OF write_blocks_from_loaded(2)[OF run]])
  ultimately show ?thesis by (simp add: before_def)
qed

lemmas writer_defs = save_to_excel_file_def create_excel_file_with_headers_def write_blocks_def
  write_block_def skip_condition_def write_author_def set_row_def max_row_def Let_def

text \<open>
  Claim C4, witness: the same record twice, with three author strings of which two
  become the same name, gives two rows.
\<close>

theorem appended_rows_distinct_witness:
  "\<exists>after. save_to_excel_file [comma_talk, comma_talk] ''result.xlsx'' Map.empty ''result.xlsx'' =
       Some after \<and>
     length (appended_rows [header_row] after) = 2 \<and>
     distinct (map (\<lambda>r. (col_C r, col_A r)) (appended_rows [header_row] after))"
proof -
  from appended_rows_distinct[of "[comma_talk, comma_talk]" "''result.xlsx''" Map.empty]
  obtain after where a: "save_to_excel_file [comma_talk, comma_talk] ''result.xlsx'' Map.empty
       ''result.xlsx'' = Some after"
    and d: "distinct (map (\<lambda>r. (col_C r, col_A r)) (appended_rows [header_row] after))"
    by auto
  have "save_to_excel_file [comma_talk, comma_talk] ''result.xlsx'' Map.empty ''result.xlsx'' =
     Some [header_row,
       \<lparr>col_A = ''Ann'', col_B = ''Kyiv, Lviv'', col_C = ''Session 1'', col_D = [],
        col_E = ''Talk A'', col_F = ''Text''\<rparr>,
       \<lparr>col_A = ''ob'', col_B = ''Kyiv, Lviv'', col_C = ''Session 1'', col_D = [],
        col_E = ''Talk A'', col_F = ''Text''\<rparr>]"
    by (simp add: writer_defs comma_talk_def)
  with a have "length (appended_rows [header_row] after) = 2"
    by (auto simp: appended_rows_def max_row_def)
  with a d show ?thesis by blast
qed

lemma startswith_comma: "(take 1 a = '','') = (a \<noteq> [] \<and> hd a = CHR '','')"
  by (cases a) auto

lemma startswith_comma_Suc: "(take (Suc 0) a = '','') = (a \<noteq> [] \<and> hd a = CHR '','')"
  by (cases a) auto

lemma set_row_Suc:
  "set_row (Suc (max_row sh)) r sh = (if sh = [] then [blank_row, r] else sh @ [r])"
  using set_row_next[of sh r] by simp

lemma write_author_prefix:
  "sh \<noteq> [] \<Longrightarrow> \<exists>rs. snd (write_author blk a (seen, sh)) = sh @ rs"
  by (simp add: write_author_def Let_def set_row_Suc)

lemma write_authors_prefix:
  "sh \<noteq> [] \<Longrightarrow> \<exists>rs. snd (foldl (\<lambda>s author. write_author blk author s) (seen, sh) as) = sh @ rs"
proof (induction as arbitrary: seen sh)
  case Nil
  then show ?case by simp
next
  case (Cons a as)
  obtain seen1 sh1 where st: "write_author blk a (seen, sh) = (seen1, sh1)"
    by (cases "write_author blk a (seen, sh)")
  from write_author_prefix[OF Cons.prems, of blk a seen] st
  obtain rs where rs: "sh1 = sh @ rs" by auto
  with Cons.prems have "sh1 \<noteq> []" by simp
  from Cons.IH[OF this, of seen1] obtain rs' where
    "snd (foldl (\<lambda>s author. write_author blk author s) (seen1, sh1) as) = sh1 @ rs'" by blast
  then show ?case using st rs by simp
qed

lemma write_blocks_prefix:
  "sh \<noteq> [] \<Longrightarrow> \<exists>rs. snd (write_blocks blocks (seen, sh)) = sh @ rs"
proof (induction blocks arbitrary: seen sh)
  case Nil
  then show ?case by (simp add: write_blocks_def)
next
  case (Cons blk blocks)
  obtain seen1 sh1 where st: "write_block blk (seen, sh) = (seen1, sh1)"
    by (cases "write_block blk (seen, sh)")
  have "\<exists>rs. sh1 = sh @ rs"
  proof (cases "skip_condition blk seen")
    case True
    with st show ?thesis by (simp add: write_block_def)
  next
    case False
    with st write_authors_prefix[OF Cons.prems, of blk seen "authors blk"]
    show ?thesis by (simp add: write_block_def)
  qed
  then obtain rs where rs: "sh1 = sh @ rs" by blast
  with Cons.prems have "sh1 \<noteq> []" by simp
  from Cons.IH[OF this, of seen1] obtain rs' where
    "snd (write_blocks blocks (seen1, sh1)) = sh1 @ rs'" by blast
  then show ?case using st rs by (simp add: write_blocks_def)
qed

text \<open>
  Claim C7. When there is no file at the path, \<^verbatim>\<open>create_excel_file_with_headers\<close>
  makes a sheet of one row with the six header texts, and after the writer has run the
  file exists and its first row is that header row.
\<close>

theorem absent_file_gets_headers:
  assumes "fs file_path = None"
  shows "create_excel_file_with_headers file_path fs file_path =
           Some [\<lparr>col_A = ''Name (incl, titles if any mentioned'', col_B = ''Affiliations'',
                  col_C = ''Session name'', col_D = ''Persons Location'',
                  col_E = ''Topic Title'', col_F = ''Presentation Abstract''\<rparr>] \<and>
         (\<exists>rows. save_to_excel_file blocks file_path fs file_path =
           Some (\<lparr>col_A = ''Name (incl, titles if any mentioned'', col_B = ''Affiliations'',
                  col_C = ''Session name'', col_D = ''Persons Location'',
                  col_E = ''Topic Title'', col_F = ''Presentation Abstract''\<rparr> # rows))"
proof -
  have "[header_row] \<noteq> []" by simp
  from write_blocks_prefix[OF this, of blocks "{}"]
  obtain rs where "snd (write_blocks blocks ({}, [header_row])) = [header_row] @ rs" by blast
  then have "save_to_excel_file blocks file_path fs file_path = Some (header_row # rs)"
    using assms by (simp add: save_to_excel_file_loaded)
  then show ?thesis
    by (simp add: header_row_def create_excel_file_with_headers_def)
qed

text \<open>
  Claim C7, witness: writing one record to an absent file.
\<close>

theorem absent_file_gets_headers_witness:
  "Map.empty ''result.xlsx'' = (None :: sheet option) \<and>
   (\<exists>rows. save_to_excel_file [first_talk] ''result.xlsx'' Map.empty ''result.xlsx'' =
      Some (\<lparr>col_A = ''Name (incl, titles if any mentioned'', col_B = ''Affiliations'',
             col_C = ''Session name'', col_D = ''Persons Location'',
             col_E = ''Topic Title'', col_F = ''Presentation Abstract''\<rparr> # rows))"
proof -
  have h: "Map.empty ''result.xlsx'' = (None :: sheet option)" by simp
  from absent_file_gets_headers[OF h, where blocks = "[first_talk]"] h show ?thesis by blast
qed

lemma skip_trace_true:
  "i < length blocks \<Longrightarrow> skip_trace blocks s ! i \<Longrightarrow>
     session (blocks ! i) \<noteq> [] \<and>
     authors (blocks ! i) \<in> fst s \<union>
       (\<Union>b \<in> set (take i blocks).
          (\<lambda>a. [session b, if take 1 a = '','' then drop 2 a else a]) ` set (authors b))"
proof (induction blocks arbitrary: i s)
  case Nil
  then show ?case by simp
next
  case (Cons blk blocks)
  obtain seen sh where s: "s = (seen, sh)" by (cases s)
  show ?case
  proof (cases i)
    case 0
    with Cons.prems show ?thesis by (simp add: skip_condition_def)
  next
    case (Suc j)
    with Cons.prems have j: "j < length blocks" and tr: "skip_trace blocks (write_block blk s) ! j"
      by simp_all
    from Cons.IH[OF j tr] have se: "session (blocks ! j) \<noteq> []"
      and mem: "authors (blocks ! j) \<in> fst (write_block blk s) \<union>
       (\<Union>b \<in> set (take j blocks).
          (\<lambda>a. [session b, if take 1 a = '','' then drop 2 a else a]) ` set (authors b))"
      by simp_all
    have sub: "fst (write_block blk s) \<subseteq> fst s \<union>
       (\<lambda>a. [session blk, if take 1 a = '','' then drop 2 a else a]) ` set (authors blk)"
      unfolding s write_block_seen by auto
    from mem sub have "authors (blocks ! j) \<in> fst s \<union>
       (\<Union>b \<in> set (blk # take j blocks).
          (\<lambda>a. [session b, if take 1 a = '','' then drop 2 a else a]) ` set (authors b))"
      by auto
    with se Suc show ?thesis by simp
  qed
qed

text \<open>
  Claim C8, as the code has it. The condition of line 138 holds for a record only if its
  session is not empty and its author list has exactly two entries: the session of an
  earlier record of the same call, followed by one of that record's author names as
  written. For any other record it is false.
\<close>

theorem skip_condition_only_on_author_pairs:
  assumes "i < length blocks" and "skip_trace blocks ({}, sh) ! i"
  shows "session (blocks ! i) \<noteq> [] \<and> length (authors (blocks ! i)) = 2 \<and>
         (\<exists>j<i. \<exists>a \<in> set (authors (blocks ! j)).
            authors (blocks ! i) =
              [session (blocks ! j), if a \<noteq> [] \<and> hd a = CHR '','' then drop 2 a else a])"
proof -
  from skip_trace_true[OF assms] have se: "session (blocks ! i) \<noteq> []"
    and "authors (blocks ! i) \<in>
       (\<Union>b \<in> set (take i blocks).
          (\<lambda>a. [session b, if take 1 a = '','' then drop 2 a else a]) ` set (authors b))"
    by simp_all
  then obtain b a where b: "b \<in> set (take i blocks)" and a: "a \<in> set (authors b)"
    and eq: "authors (blocks ! i) = [session b, if take 1 a = '','' then drop 2 a else a]"
    by auto
  from b obtain j where j: "j < length (take i blocks)" and bj: "take i blocks ! j = b"
    by (auto simp: in_set_conv_nth)
  from j assms(1) have ji: "j < i" by simp
  with bj have "blocks ! j = b" by simp
  with a eq ji have "\<exists>j<i. \<exists>a \<in> set (authors (blocks ! j)).
            authors (blocks ! i) =
              [session (blocks ! j), if a \<noteq> [] \<and> hd a = CHR '','' then drop 2 a else a]"
    unfolding startswith_comma by blast
  moreover from eq have "length (authors (blocks ! i)) = 2" by simp
  ultimately show ?thesis using se by blast
qed

text \<open>
  Claim C8 as worded says the condition never holds. It holds for the second of these two
  records, whose two authors are the session and the author of the first: the second
  record is skipped and gets no row.
\<close>

theorem skip_condition_reachable:
  "skip_trace [first_talk, echo_talk] ({}, [header_row]) = [False, True] \<and>
   save_to_excel_file [first_talk, echo_talk] ''result.xlsx'' Map.empty ''result.xlsx'' =
     Some [header_row,
           \<lparr>col_A = ''Dr. X'', col_B = [], col_C = ''Session 1'', col_D = [],
            col_E = ''Talk A'', col_F = []\<rparr>]"
  by (simp add: writer_defs first_talk_def echo_talk_def)

text \<open>
  Claim C8, witness: the same two records, at the second record.
\<close>

theorem skip_condition_only_on_author_pairs_witness:
  "Suc 0 < length [first_talk, echo_talk] \<and>
   skip_trace [first_talk, echo_talk] ({}, [header_row]) ! Suc 0 \<and>
   session echo_talk \<noteq> [] \<and> length (authors echo_talk) = 2 \<and>
   authors echo_talk = [session first_talk, ''Dr. X'']"
proof -
  have h1: "Suc 0 < length [first_talk, echo_talk]" by simp
  have h2: "skip_trace [first_talk, echo_talk] ({}, [header_row]) ! Suc 0"
    by (simp add: writer_defs first_talk_def echo_talk_def)
  from skip_condition_only_on_author_pairs[OF h1 h2] have "session echo_talk \<noteq> [] \<and> length (authors echo_talk) = 2" by simp
  moreover have "authors echo_talk = [session first_talk, ''Dr. X'']"
    by (simp add: first_talk_def echo_talk_def)
  ultimately show ?thesis using h1 h2 by blast
qed

lemma write_blocks_seen:
  "fst (write_blocks blocks s) = fst s \<union>
     (\<Union>(blk, skipped) \<in> set (zip blocks (skip_trace blocks s)).
        if skipped then {}
        else (\<lambda>a. [session blk, if take 1 a = '','' then drop 2 a else a]) ` set (authors blk))"
proof (induction blocks arbitrary: s)
  case Nil
  then show ?case by (simp add: write_blocks_def)
next
  case (Cons blk blocks)
  obtain seen sh where s: "s = (seen, sh)" by (cases s)
  have step: "write_blocks (blk # blocks) s = write_blocks blocks (write_block blk s)"
    by (simp add: write_blocks_def)
  show ?case unfolding step Cons.IH
    by (auto simp: s write_block_seen split: if_splits)
qed

text \<open>
  Claim C10. The (session, name) pairs of the rows a call appends are exactly these: for
  every record whose condition of line 138 is false and every author string of it, the
  session with the author string, less its first two characters when its first character
  is a comma, whatever the second is, and unchanged otherwise. No pair is written twice,
  so the names are compared for duplicates in this form too.
\<close>

theorem written_names_stripped:
  "\<exists>after. save_to_excel_file blocks file_path fs file_path = Some after \<and>
     (\<lambda>r. (col_C r, col_A r)) `
       set (appended_rows (case fs file_path of None \<Rightarrow> [header_row] | Some sh \<Rightarrow> sh) after) =
     (\<Union>(blk, skipped) \<in> set (zip blocks (skip_trace blocks
          ({}, case fs file_path of None \<Rightarrow> [header_row] | Some sh \<Rightarrow> sh))).
        if skipped then {}
        else (\<lambda>a. (session blk, if a \<noteq> [] \<and> hd a = CHR '','' then drop 2 a else a)) `
               set (authors blk)) \<and>
     distinct (map (\<lambda>r. (col_C r, col_A r))
       (appended_rows (case fs file_path of None \<Rightarrow> [header_row] | Some sh \<Rightarrow> sh) after))"
proof -
  define before where "before = (case fs file_path of None \<Rightarrow> [header_row] | Some sh \<Rightarrow> sh)"
  obtain seen' sh' where run: "write_blocks blocks ({}, before) = (seen', sh')"
    by (cases "write_blocks blocks ({}, before)")
  have sv: "save_to_excel_file blocks file_path fs file_path = Some sh'"
    using run by (simp add: save_to_excel_file_loaded before_def)
  have dist: "distinct (map (\<lambda>r. (col_C r, col_A r)) (appended_rows before sh'))"
    by (rule distinct_pairs_of_tuples[OF write_blocks_from_loaded(2)[OF run]])
  have keys: "(\<lambda>r. [col_C r, col_A r]) ` set (appended_rows before sh') = seen'"
    using write_blocks_from_loaded(1)[OF run] by simp
  have seen: "seen' =
     (\<Union>(blk, skipped) \<in> set (zip blocks (skip_trace blocks ({}, before))).
        if skipped then {}
        else (\<lambda>a. [session blk, if take 1 a = '','' then drop 2 a else a]) ` set (authors blk))"
    using write_blocks_seen[of blocks "({}, before)"] run by simp
  have "(\<lambda>r. (col_C r, col_A r)) ` set (appended_rows before sh') =
        (\<lambda>l. (hd l, hd (tl l))) ` ((\<lambda>r. [col_C r, col_A r]) ` set (appended_rows before sh'))"
    by (simp add: image_image)
  also have "\<dots> = (\<lambda>l. (hd l, hd (tl l))) ` seen'" by (simp only: keys)
  also have "\<dots> =
     (\<Union>x \<in> set (zip blocks (skip_trace blocks ({}, before))).
        (\<lambda>l. (hd l, hd (tl l))) ` (case x of (blk, skipped) \<Rightarrow>
        if skipped then {}
        else (\<lambda>a. [session blk, if take 1 a = '','' then drop 2 a else a]) ` set (authors blk)))"
    unfolding seen by (simp only: image_UN)
  also have "\<dots> =
     (\<Union>(blk, skipped) \<in> set (zip blocks (skip_trace blocks ({}, before))).
        if skipped then {}
        else (\<lambda>a. (session blk, if a \<noteq> [] \<and> hd a = CHR '','' then drop 2 a else a)) `
               set (authors blk))"
    by (rule SUP_cong[OF refl]) (auto simp: image_image startswith_comma_Suc split: prod.splits)
  finally show ?thesis using sv dist by (simp add: before_def)
qed

text \<open>
  Claim C10, witness: the author strings \<^verbatim>\<open>Ann\<close>, \<^verbatim>\<open>, Ann\<close> and \<^verbatim>\<open>,Bob\<close>
  give the names \<^verbatim>\<open>Ann\<close> and \<^verbatim>\<open>ob\<close>.
\<close>

theorem written_names_stripped_witness:
  "\<exists>after. save_to_excel_file [comma_talk] ''result.xlsx'' Map.empty ''result.xlsx'' = Some after \<and>
     (\<lambda>r. (col_C r, col_A r)) ` set (appended_rows [header_row] after) =
       {(''Session 1'', ''Ann''), (''Session 1'', ''ob'')} \<and>
     distinct (map (\<lambda>r. (col_C r, col_A r)) (appended_rows [header_row] after))"
proof -
  have tr: "skip_trace [comma_talk] ({}, [header_row]) = [False]"
    by (simp add: skip_condition_def)
  from written_names_stripped[of "[comma_talk]" "''result.xlsx''" Map.empty]
  obtain after where a: "save_to_excel_file [comma_talk] ''result.xlsx'' Map.empty ''result.xlsx'' =
       Some after"
    and k: "(\<lambda>r. (col_C r, col_A r)) ` set (appended_rows [header_row] after) =
     (\<Union>(blk, skipped) \<in> set (zip [comma_talk] (skip_trace [comma_talk] ({}, [header_row]))).
        if skipped then {}
        else (\<lambda>a. (session blk, if a \<noteq> [] \<and> hd a = CHR '','' then drop 2 a else a)) `
               set (authors blk))"
    and d: "distinct (map (\<lambda>r. (col_C r, col_A r)) (appended_rows [header_row] after))"
    by auto
  have "(\<Union>(blk, skipped) \<in> set (zip [comma_talk] (skip_trace [comma_talk] ({}, [header_row]))).
        if skipped then {}
        else (\<lambda>a. (session blk, if a \<noteq> [] \<and> hd a = CHR '','' then drop 2 a else a)) `
               set (authors blk)) = {(''Session 1'', ''Ann''), (''Session 1'', ''ob'')}"
    unfolding tr by (simp add: comma_talk_def)
  with a k d show ?thesis by auto
qed

section \<open>End to end\<close>

lemma read_talk_block: "read_block talk_block = first_talk"
  by (simp add: read_block_def talk_block_def add_span_def span_defs empty_article_def
      first_talk_def)

lemma talk_block_type: "block_type talk_block = 0"
  by (simp add: talk_block_def)

lemma first_talk_content: "has_content first_talk" "session first_talk \<noteq> []"
  by (simp_all add: has_content_def first_talk_def)

lemma text_blocks_from_1: "text_blocks synthetic_pdf 1 = Some [talk_block]"
  by (simp add: text_blocks_def page_numbers_def synthetic_pdf_def upto.simps)

lemma text_blocks_from_44: "text_blocks synthetic_pdf 44 = Some []"
  by (simp add: text_blocks_def page_numbers_def synthetic_pdf_def)

lemma extract_synthetic_pdf:
  "extract_information_from_pdf synthetic_pdf 1 =
     Some ([0], (\<lambda>_. empty_article)(0 := first_talk))"
  by (simp add: extract_information_from_pdf_def text_blocks_from_1 extract_blocks_def
      block_step_def read_talk_block init_gen_def first_talk_content collect_def
      talk_block_type Let_def)

lemma merge_generated_talk_block:
  "merge_generated [talk_block] = ([0], (\<lambda>_. empty_article)(0 := first_talk))"
  by (simp add: merge_generated_def block_step_def read_talk_block init_gen_def
      first_talk_content merge_body_def init_merge_def merge_finish_def talk_block_type Let_def)

lemma merge_generated_Nil: "merge_generated [] = ([], (\<lambda>_. empty_article))"
  by (simp add: merge_generated_def init_gen_def init_merge_def merge_finish_def)

lemma save_first_record:
  "save_to_excel_file [first_talk] ''result.xlsx'' Map.empty ''result.xlsx'' =
     Some [header_row,
           \<lparr>col_A = ''Dr. X'', col_B = [], col_C = ''Session 1'', col_D = [],
            col_E = ''Talk A'', col_F = []\<rparr>]"
  by (simp add: writer_defs first_talk_def)

lemma main_program_synthetic_pdf:
  "main_program synthetic_pdf Map.empty = Some [''result.xlsx'' \<mapsto> [header_row]]"
  by (simp add: main_program_def run_from_def text_blocks_from_44 merge_generated_Nil
      save_to_excel_file_def create_excel_file_with_headers_def write_blocks_def)

text \<open>
  Claim C1, as the code has it. Read from start page 1, the two-page document with the
  three spans in one text block yields one record, at address 0: session
  \<^verbatim>\<open>Session 1\<close>, title \<^verbatim>\<open>Talk A\<close>, the one author \<^verbatim>\<open>Dr. X\<close>, no affiliations
  and an empty abstract. The merger returns this one record, and one call of the writer
  on it, with no file at the path, leaves the header row and one data row. Read from
  start page 44, the document yields nothing.
\<close>

theorem synthetic_pdf_end_to_end:
  "extract_information_from_pdf synthetic_pdf 1 = Some ([0], (\<lambda>_. empty_article)(0 := first_talk)) \<and>
   text_blocks synthetic_pdf 1 = Some [talk_block] \<and>
   merge_generated [talk_block] = ([0], (\<lambda>_. empty_article)(0 := first_talk)) \<and>
   save_to_excel_file [first_talk] ''result.xlsx'' Map.empty ''result.xlsx'' =
     Some [header_row,
           \<lparr>col_A = ''Dr. X'', col_B = [], col_C = ''Session 1'', col_D = [],
            col_E = ''Talk A'', col_F = []\<rparr>] \<and>
   extract_information_from_pdf synthetic_pdf 44 = Some ([], \<lambda>_. empty_article)"
proof -
  have "extract_information_from_pdf synthetic_pdf 44 = Some ([], \<lambda>_. empty_article)"
    by (simp add: extract_information_from_pdf_def text_blocks_from_44 extract_blocks_def init_gen_def)
  then show ?thesis
    using extract_synthetic_pdf text_blocks_from_1 merge_generated_talk_block save_first_record
    by simp
qed

text \<open>
  Claim C1 as worded runs the program. The entry point starts at page 44, so on the
  two-page document it reads no page and writes the header row only.
\<close>

theorem main_program_reads_no_page:
  "main_program synthetic_pdf Map.empty = Some [''result.xlsx'' \<mapsto> [header_row]]"
  by (rule main_program_synthetic_pdf)

text \<open>
  Claim C1, witness: the record extracted from start page 1.
\<close>

theorem synthetic_pdf_end_to_end_witness:
  "extract_information_from_pdf synthetic_pdf 1 = Some ([0], (\<lambda>_. empty_article)(0 := first_talk)) \<and>
   first_talk = \<lparr>authors = [''Dr. X''], affiliations = [], session = ''Session 1'',
                 title = ''Talk A'', abstract = []\<rparr>"
  using synthetic_pdf_end_to_end by (simp add: first_talk_def)

end
